theory Spec2Isabelle
  imports Main "HOL-Library.Word"
begin

unbundle bit_operations_syntax

section \<open>The metablock record and its checksum\<close>

text \<open>
  Source: \<^verbatim>\<open>src/serializer/log/metablock/metablock_manager.hpp\<close>.

  The record \<^verbatim>\<open>crc_metablock_t\<close> holds the stored checksum \<^verbatim>\<open>uint32_t _crc\<close>, the
  version \<^verbatim>\<open>int version\<close> and the payload \<^verbatim>\<open>metablock_t metablock\<close>. The payload type
  is a template parameter; \<^verbatim>\<open>crc()\<close> reads it through
  \<^verbatim>\<open>process_bytes(&metablock, sizeof(metablock))\<close>, so it is modelled by its object
  representation, a list of bytes. \<^verbatim>\<open>int\<close> is the 32-bit two's complement integer of
  the Linux and Mach targets the runtime is written for; \<open>sint\<close> reads its value. The
  marker fields exist only under \<^verbatim>\<open>SERIALIZER_MARKERS\<close> and are never read by the
  member functions, they are left out.
\<close>

type_synonym byte = "8 word"
type_synonym uint32_t = "32 word"
type_synonym c_int = "32 word"
type_synonym metablock_t = "byte list"

record crc_metablock_t =
  crc_field :: uint32_t
  version :: c_int
  metablock :: metablock_t

text \<open>The class constant \<^verbatim>\<open>poly\<close> of the manager (line 23); \<^verbatim>\<open>crc()\<close> does not use it.\<close>

definition poly :: uint32_t where
  "poly = 0x1337BEEF"

text \<open>
  \<^verbatim>\<open>boost::crc_optimal<32, TruncPoly, InitRem, FinalXor, ReflectIn, ReflectRem>\<close> is the
  library's parametrised CRC computer. Its template parameters are those of the
  Rocksoft model, which fixes the value it computes: the register starts at
  \<open>InitRem\<close>; every input byte (bit-reflected when \<open>ReflectIn\<close>) is fed in most
  significant bit first, the register being shifted left and reduced by the truncated
  polynomial; the checksum is the register (bit-reflected when \<open>ReflectRem\<close>) combined
  with \<open>FinalXor\<close>. The width is fixed at 32 by the type.
\<close>

definition reflect :: "'a::len word \<Rightarrow> 'a word" where
  "reflect w = word_reverse w"

definition crc_shift :: "uint32_t \<Rightarrow> uint32_t \<Rightarrow> uint32_t" where
  "crc_shift trunc_poly rem =
     (if bit rem 31 then push_bit 1 rem XOR trunc_poly else push_bit 1 rem)"

definition process_byte :: "uint32_t \<Rightarrow> bool \<Rightarrow> byte \<Rightarrow> uint32_t \<Rightarrow> uint32_t" where
  "process_byte trunc_poly reflect_in b rem =
     ((crc_shift trunc_poly) ^^ 8)
       (rem XOR push_bit 24 (ucast (if reflect_in then reflect b else b)))"

definition process_bytes :: "uint32_t \<Rightarrow> bool \<Rightarrow> byte list \<Rightarrow> uint32_t \<Rightarrow> uint32_t" where
  "process_bytes trunc_poly reflect_in bs rem = fold (process_byte trunc_poly reflect_in) bs rem"

definition crc_optimal ::
  "uint32_t \<Rightarrow> uint32_t \<Rightarrow> uint32_t \<Rightarrow> bool \<Rightarrow> bool \<Rightarrow> byte list \<Rightarrow> uint32_t" where
  "crc_optimal trunc_poly init_rem final_xor reflect_in reflect_rem bs =
     (let rem = process_bytes trunc_poly reflect_in bs init_rem
      in (if reflect_rem then reflect rem else rem) XOR final_xor)"

text \<open>
  \<^verbatim>\<open>crc_metablock_t::crc()\<close> (lines 40-46): one computer, fed the payload bytes only.
  The line that would feed the version is commented out in the source.
\<close>

definition crc :: "crc_metablock_t \<Rightarrow> uint32_t" where
  "crc r = crc_optimal 0x04C11DB7 0xFFFFFFFF 0xFFFFFFFF True True (metablock r)"

text \<open>\<^verbatim>\<open>set_crc()\<close> (lines 47-49) and \<^verbatim>\<open>check_crc()\<close> (lines 51-53).\<close>

definition set_crc :: "crc_metablock_t \<Rightarrow> crc_metablock_t" where
  "set_crc r = r\<lparr>crc_field := crc r\<rparr>"

definition check_crc :: "crc_metablock_t \<Rightarrow> bool" where
  "check_crc r = (crc_field r = crc r)"

text \<open>
  The CRC-32 of the claim, written the way the standard is usually implemented: the
  register is kept bit-reflected, a byte enters at the low end, and the register is
  shifted right and reduced by \<open>0xEDB88320\<close>, the bit reversal of \<open>0x04C11DB7\<close>.
  This definition follows the words of the specification, it is compared with \<open>crc\<close>.
\<close>

definition crc32_shift :: "uint32_t \<Rightarrow> uint32_t" where
  "crc32_shift c = (if bit c 0 then drop_bit 1 c XOR 0xEDB88320 else drop_bit 1 c)"

definition crc32_byte :: "byte \<Rightarrow> uint32_t \<Rightarrow> uint32_t" where
  "crc32_byte b c = (crc32_shift ^^ 8) (c XOR ucast b)"

definition crc32_standard :: "byte list \<Rightarrow> uint32_t" where
  "crc32_standard bs = fold crc32_byte bs 0xFFFFFFFF XOR 0xFFFFFFFF"


section \<open>The metablock ring\<close>

text \<open>
  The constants of the header (lines 16-17; the second keeps the spelling of the source)
  and the cursor \<^verbatim>\<open>head_t\<close> (lines 58-83). \<^verbatim>\<open>size_t extent_size\<close> is a natural number.
\<close>

definition MB_NEXTENTS :: nat where
  "MB_NEXTENTS = 2"

definition MB_EXTENT_SEPERATION :: nat where
  "MB_EXTENT_SEPERATION = 4"

record head_t =
  mb_slot :: uint32_t
  extent :: uint32_t
  saved_mb_slot :: uint32_t
  saved_extent :: uint32_t
  extent_size :: nat
  wraparound :: bool

text \<open>
  The size of the static header and \<^verbatim>\<open>sizeof(crc_metablock_t)\<close>, which depends on the
  payload type, are parameters of the layout.
\<close>

record layout =
  static_header_size :: nat
  sizeof_crc_metablock :: nat

text \<open>
  Modelled from the spec: the member functions of \<^verbatim>\<open>head_t\<close> are declared in the header
  and defined in \<^verbatim>\<open>metablock_manager.tcc\<close>, which is not among the sources. The
  specification says: the head starts at slot 0 of extent 0 with the wraparound flag
  false; an extent holds \<open>extent_size / sizeof(CRCMetablock)\<close> slots; advancing moves to
  the next slot, to the next extent when the slot reaches the number of slots of an
  extent, the extent wrapping modulo \<open>MB_NEXTENTS\<close>, and the flag becoming true when the
  cursor passes slot 0 of extent 0; the offset is \<open>static_header_size + (extent *
  MB_EXTENT_SEPARATION) * extent_size + slot * sizeof(CRCMetablock)\<close>; \<open>push\<close> saves the
  position and \<open>pop\<close> loads the saved one.
\<close>

definition new_head_t :: "nat \<Rightarrow> head_t" where
  "new_head_t es =
     \<lparr>mb_slot = 0, extent = 0, saved_mb_slot = 0, saved_extent = 0, extent_size = es,
      wraparound = False\<rparr>"

definition slots_per_extent :: "layout \<Rightarrow> nat \<Rightarrow> nat" where
  "slots_per_extent l es = es div sizeof_crc_metablock l"

definition incr :: "layout \<Rightarrow> head_t \<Rightarrow> head_t" where
  "incr l h =
     (let slot = mb_slot h + 1
      in if slots_per_extent l (extent_size h) \<le> unat slot
         then let e = (extent h + 1) mod of_nat MB_NEXTENTS
              in h\<lparr>mb_slot := 0, extent := e, wraparound := (wraparound h \<or> e = 0)\<rparr>
         else h\<lparr>mb_slot := slot\<rparr>)"

definition offset :: "layout \<Rightarrow> head_t \<Rightarrow> nat" where
  "offset l h =
     static_header_size l + (unat (extent h) * MB_EXTENT_SEPERATION) * extent_size h
       + unat (mb_slot h) * sizeof_crc_metablock l"

definition push :: "head_t \<Rightarrow> head_t" where
  "push h = h\<lparr>saved_mb_slot := mb_slot h, saved_extent := extent h\<rparr>"

definition pop :: "head_t \<Rightarrow> head_t" where
  "pop h = h\<lparr>mb_slot := saved_mb_slot h, extent := saved_extent h\<rparr>"

text \<open>The offset of the \<open>k\<close>-th slot in the order the head visits them.\<close>

definition ring_slot :: "layout \<Rightarrow> nat \<Rightarrow> nat \<Rightarrow> nat" where
  "ring_slot l es k = offset l ((incr l ^^ k) (new_head_t es))"

definition ring_slots :: "layout \<Rightarrow> nat \<Rightarrow> nat" where
  "ring_slots l es = MB_NEXTENTS * slots_per_extent l es"


section \<open>The thread pool\<close>

text \<open>
  Source: \<^verbatim>\<open>src/arch/runtime/thread_pool.cc\<close>.

  Failures are values. \<^verbatim>\<open>rassert\<close> is the debug-build assertion, \<^verbatim>\<open>guarantee\<close>,
  \<^verbatim>\<open>guarantee_err\<close> and \<^verbatim>\<open>guarantee_xerr\<close> abort in every build, \<^verbatim>\<open>crash\<close> prints its
  message and aborts; each ends the process, so each is an \<open>Inl\<close> result. The arguments
  of a \<^verbatim>\<open>crash\<close> format string are kept beside it. Dereferencing a null entry of
  \<^verbatim>\<open>threads[]\<close> is a fault of its own.
\<close>

datatype crash_arg = Pointer_arg "64 word" | Int_arg c_int

datatype error =
    Assertion_failed string
  | Guarantee_failed string
  | Crash string "crash_arg list"
  | Null_dereference

text \<open>
  A \<^verbatim>\<open>linux_thread_message_t *\<close> is the identity of a message object; \<open>None\<close> is
  \<^verbatim>\<open>NULL\<close>.
\<close>

type_synonym linux_thread_message_t = nat

text \<open>
  \<^verbatim>\<open>linux_thread_t\<close>: the in-boxes of the worker's message hub, its shutdown flag
  \<^verbatim>\<open>do_shutdown\<close> and its shutdown notifier, counted by the writes made to it. The
  constructor (lines 414-429) aborts when the mutex of the flag cannot be initialised;
  the result of that call is its argument. \<^verbatim>\<open>initiate_shut_down\<close> is at lines 466-480.
\<close>

record linux_thread_t =
  external_messages :: "linux_thread_message_t list"
  local_messages :: "linux_thread_message_t list"
  thread_do_shutdown :: bool
  shutdown_notify_event :: nat

definition linux_thread_t_init :: linux_thread_t where
  "linux_thread_t_init =
     \<lparr>external_messages = [], local_messages = [], thread_do_shutdown = False,
      shutdown_notify_event = 0\<rparr>"

definition new_linux_thread_t :: "c_int \<Rightarrow> error + linux_thread_t" where
  "new_linux_thread_t res_mutex_init =
     (if res_mutex_init \<noteq> 0 then Inl (Guarantee_failed ''could not initialize do_shutdown_mutex'')
      else Inr linux_thread_t_init)"

definition initiate_shut_down :: "linux_thread_t \<Rightarrow> linux_thread_t" where
  "initiate_shut_down t =
     t\<lparr>thread_do_shutdown := True, shutdown_notify_event := shutdown_notify_event t + 1\<rparr>"

text \<open>
  Modelled from the spec: the message hub is not among the sources. The specification
  describes it as a per-worker in-box with two classes of entry, local ones (pushed by
  code already on that worker) and external ones (pushed by other workers or by signal
  handlers), delivered in the order in which they were posted. So
  \<^verbatim>\<open>insert_external_message\<close> enqueues an external entry and \<^verbatim>\<open>store_message\<close> a local one.
\<close>

definition insert_external_message :: "linux_thread_message_t \<Rightarrow> linux_thread_t \<Rightarrow> linux_thread_t" where
  "insert_external_message m t = t\<lparr>external_messages := external_messages t @ [m]\<rparr>"

definition store_message :: "linux_thread_message_t \<Rightarrow> linux_thread_t \<Rightarrow> linux_thread_t" where
  "store_message m t = t\<lparr>local_messages := local_messages t @ [m]\<rparr>"

text \<open>
  \<^verbatim>\<open>new blocker_pool_t(GENERIC_BLOCKER_THREAD_COUNT, &local_thread.queue)\<close>: the number
  of helper threads and the worker whose event queue the pool is attached to.
\<close>

record blocker_pool_t =
  helper_threads :: nat
  attached_queue :: nat

text \<open>
  The members of \<^verbatim>\<open>linux_thread_pool_t\<close> that the functions of the file read or
  write. \<^verbatim>\<open>threads[]\<close> is indexed by thread number, a null entry is \<open>None\<close>.
  \<^verbatim>\<open>shutdown_cond\<close> is modelled by the number of signals sent to it,
  \<^verbatim>\<open>shutdown_cond_mutex\<close> by whether it is held.
\<close>

record linux_thread_pool_t =
  coroutine_summary :: bool
  interrupt_message :: "linux_thread_message_t option"
  generic_blocker_pool :: "blocker_pool_t option"
  n_threads :: c_int
  do_set_affinity :: bool
  do_shutdown :: bool
  shutdown_cond :: nat
  shutdown_cond_mutex :: bool
  threads :: "nat \<rightharpoonup> linux_thread_t"


text \<open>
  \<^verbatim>\<open>set_interrupt_message\<close> (lines 43-53): the exchange is made under the spin lock
  \<^verbatim>\<open>interrupt_message_lock\<close>, one step. It returns the old pointer.
\<close>

definition set_interrupt_message ::
  "linux_thread_message_t option \<Rightarrow> linux_thread_pool_t
     \<Rightarrow> linux_thread_message_t option \<times> linux_thread_pool_t" where
  "set_interrupt_message m pool = (interrupt_message pool, pool\<lparr>interrupt_message := m\<rparr>)"

text \<open>
  The thread the interrupt message is posted to, \<^verbatim>\<open>threads[n_threads - 1]\<close>: the extra
  utility thread that the constructor adds to the worker threads.
\<close>

definition utility_thread :: "linux_thread_pool_t \<Rightarrow> nat" where
  "utility_thread pool = nat (sint (n_threads pool - 1))"

text \<open>
  \<^verbatim>\<open>interrupt_handler\<close> (lines 355-372), run for \<^verbatim>\<open>SIGINT\<close> and \<^verbatim>\<open>SIGTERM\<close>. The
  thread-local \<^verbatim>\<open>thread_id\<close> of the thread the signal is delivered on is the first
  argument; the main thread has \<open>- 1\<close>.
\<close>

definition interrupt_handler :: "c_int \<Rightarrow> linux_thread_pool_t \<Rightarrow> error + linux_thread_pool_t" where
  "interrupt_handler thread_id self =
     (if thread_id \<noteq> - 1
      then Inl (Assertion_failed ''The interrupt handler was called on the wrong thread.'')
      else case set_interrupt_message None self of
        (None, self') \<Rightarrow> Inr self'
      | (Some interrupt_msg, self') \<Rightarrow>
          (case threads self' (utility_thread self') of
             None \<Rightarrow> Inl Null_dereference
           | Some t \<Rightarrow>
               Inr (self'\<lparr>threads := (threads self')
                      (utility_thread self' \<mapsto> insert_external_message interrupt_msg t)\<rparr>)))"

text \<open>The signal delivered \<open>n\<close> times, each handler running to its end before the next.\<close>

fun deliver_interrupts :: "nat \<Rightarrow> c_int \<Rightarrow> linux_thread_pool_t \<Rightarrow> error + linux_thread_pool_t" where
  "deliver_interrupts 0 thread_id pool = Inr pool"
| "deliver_interrupts (Suc n) thread_id pool =
     (case interrupt_handler thread_id pool of
        Inl e \<Rightarrow> Inl e
      | Inr pool' \<Rightarrow> deliver_interrupts n thread_id pool')"

text \<open>
  \<^verbatim>\<open>shutdown_thread_pool\<close> (lines 386-402). The arguments are the results of the three
  pthread calls; the call is modelled from the moment the mutex is granted.
\<close>

definition shutdown_thread_pool ::
  "c_int \<Rightarrow> c_int \<Rightarrow> c_int \<Rightarrow> linux_thread_pool_t \<Rightarrow> error + linux_thread_pool_t" where
  "shutdown_thread_pool res_lock res_signal res_unlock pool =
     (if res_lock \<noteq> 0 then Inl (Guarantee_failed ''Could not lock shutdown cond mutex'')
      else let pool1 = pool\<lparr>shutdown_cond_mutex := True\<rparr>;
               pool2 = pool1\<lparr>do_shutdown := True\<rparr>
        in if res_signal \<noteq> 0 then Inl (Guarantee_failed ''Could not signal shutdown cond'')
           else let pool3 = pool2\<lparr>shutdown_cond := shutdown_cond pool2 + 1\<rparr>
             in if res_unlock \<noteq> 0
                then Inl (Guarantee_failed ''Could not unlock shutdown cond mutex'')
                else Inr (pool3\<lparr>shutdown_cond_mutex := False\<rparr>))"

subsection \<open>The segmentation fault handler\<close>

text \<open>
  \<^verbatim>\<open>sigsegv_handler\<close> (lines 374-384). \<^verbatim>\<open>is_coroutine_stack_overflow\<close> belongs to the
  coroutine runtime, which is not among the sources: it is a parameter. The handler has
  no branch that returns.
\<close>

definition SIGSEGV :: c_int where
  "SIGSEGV = 11"

definition sigsegv_handler :: "(64 word \<Rightarrow> bool) \<Rightarrow> c_int \<Rightarrow> 64 word \<Rightarrow> error + unit" where
  "sigsegv_handler is_coroutine_stack_overflow signum si_addr =
     (if signum = SIGSEGV then
        if is_coroutine_stack_overflow si_addr
        then Inl (Crash ''Callstack overflow in a coroutine'' [])
        else Inl (Crash ''Segmentation fault from reading the address %p.'' [Pointer_arg si_addr])
      else Inl (Crash ''Unexpected signal: %d\<newline>'' [Int_arg signum]))"

text \<open>
  The signal set-up of \<^verbatim>\<open>start_thread\<close> (lines 62-75 and 94-109). \<^verbatim>\<open>pthread_sigmask\<close>
  and \<^verbatim>\<open>sigaltstack\<close> act on the calling thread: its signal mask and its alternate stack
  are the \<open>thread_signals\<close>. \<^verbatim>\<open>sigaction\<close> acts on the process: the action installed
  for \<^verbatim>\<open>SIGSEGV\<close> is shared by all threads, the main thread included, and is kept in the
  \<open>process_signals\<close>. The flag values are those of Linux. The address that
  \<^verbatim>\<open>malloc_aligned\<close> returns and the results of the system calls are parameters,
  \<^verbatim>\<open>SIGSTKSZ\<close> too.
\<close>

definition SA_SIGINFO :: c_int where
  "SA_SIGINFO = 4"

definition SA_ONSTACK :: c_int where
  "SA_ONSTACK = 0x08000000"

datatype sa_handler = Sig_dfl | Sig_ign | Interrupt_handler | Sigsegv_handler

record stack_t =
  ss_sp :: "64 word"
  ss_flags :: c_int
  ss_size :: nat

record sigaction_t =
  sa_flags :: c_int
  sa_sigaction :: sa_handler

record thread_signals =
  blocked :: "c_int \<Rightarrow> bool"
  altstack :: "stack_t option"

record process_signals =
  segv_action :: sigaction_t

definition block_signals :: "c_int \<Rightarrow> c_int \<Rightarrow> c_int \<Rightarrow> thread_signals \<Rightarrow> error + thread_signals" where
  "block_signals res_fill res_del res_mask ts =
     (if res_fill \<noteq> 0 then Inl (Guarantee_failed ''Could not get a full sigmask'')
      else if res_del \<noteq> 0 then Inl (Guarantee_failed ''Could not remove SIGSEGV from sigmask'')
      else if res_mask \<noteq> 0 then Inl (Guarantee_failed ''Could not block signal'')
      else Inr (ts\<lparr>blocked := (\<lambda>sig. sig \<noteq> SIGSEGV)\<rparr>))"

definition install_segv_handler ::
  "nat \<Rightarrow> 64 word \<Rightarrow> c_int \<Rightarrow> c_int \<Rightarrow> thread_signals \<Rightarrow> process_signals
     \<Rightarrow> error + thread_signals \<times> process_signals" where
  "install_segv_handler SEGV_STACK_SIZE sp res_altstack res_sigaction ts ps =
     (if sp = 0 then Inl (Guarantee_failed ''malloc failed'')
      else if res_altstack \<noteq> 0 then Inl (Guarantee_failed ''sigaltstack failed'')
      else let ts1 = ts\<lparr>altstack := Some \<lparr>ss_sp = sp, ss_flags = 0, ss_size = SEGV_STACK_SIZE\<rparr>\<rparr>
        in if res_sigaction \<noteq> 0 then Inl (Guarantee_failed ''Could not install SEGV handler'')
           else Inr (ts1, ps\<lparr>segv_action :=
                  \<lparr>sa_flags = SA_SIGINFO OR SA_ONSTACK, sa_sigaction = Sigsegv_handler\<rparr>\<rparr>))"

text \<open>
  The rule of \<^verbatim>\<open>sigaction(2)\<close> and \<^verbatim>\<open>sigaltstack(2)\<close>: a handler runs on the alternate
  stack of the thread the signal is delivered on when the action of the process has
  \<^verbatim>\<open>SA_ONSTACK\<close> and that thread has installed such a stack; it runs on the thread's
  ordinary stack otherwise.
\<close>

definition runs_on_alternate_stack :: "process_signals \<Rightarrow> thread_signals \<Rightarrow> bool" where
  "runs_on_alternate_stack ps ts =
     (sa_flags (segv_action ps) AND SA_ONSTACK \<noteq> 0 \<and> altstack ts \<noteq> None)"


subsection \<open>Starting the threads\<close>

text \<open>
  \<^verbatim>\<open>thread_barrier_t barrier(n_threads + 1)\<close> (line 166) and the \<^verbatim>\<open>thread_data_t\<close> that
  \<^verbatim>\<open>run_thread_pool\<close> hands to each thread (lines 55-60 and 168-177). Every thread is
  given the address of the one barrier and of the one pool; the pool is the state the
  functions below pass along. \<open>created_threads\<close> are the threads of a run in which every
  \<^verbatim>\<open>pthread_create\<close> succeeds; the run aborts otherwise.
\<close>

record thread_barrier_t =
  num_workers :: c_int

record thread_data_t =
  barrier :: thread_barrier_t
  current_thread :: c_int
  initial_message :: "linux_thread_message_t option"

definition new_thread_data ::
  "thread_barrier_t \<Rightarrow> linux_thread_message_t option \<Rightarrow> nat \<Rightarrow> thread_data_t" where
  "new_thread_data b initial_message' i =
     \<lparr>barrier = b, current_thread = of_nat i,
      initial_message = (if i = 0 then initial_message' else None)\<rparr>"

definition created_threads ::
  "linux_thread_pool_t \<Rightarrow> linux_thread_message_t option \<Rightarrow> thread_data_t list" where
  "created_threads pool initial_message' =
     map (new_thread_data \<lparr>num_workers = n_threads pool + 1\<rparr> initial_message')
       [0..<nat (sint (n_threads pool))]"

text \<open>
  \<^verbatim>\<open>start_thread\<close> up to the first \<^verbatim>\<open>barrier->wait()\<close> (lines 62-117): the signal
  set-up on the thread's own signal state and on that of the process, the registration
  of \<^verbatim>\<open>local_thread\<close> in \<^verbatim>\<open>threads[]\<close>, and the blocker pool, which only the thread that
  was given the initial message creates. \<^verbatim>\<open>GENERIC_BLOCKER_THREAD_COUNT\<close> and
  \<^verbatim>\<open>SIGSTKSZ\<close> are parameters, and so are the results of the library calls.
\<close>

record start_thread_results =
  res_sigfillset :: c_int
  res_sigdelset :: c_int
  res_pthread_sigmask :: c_int
  res_do_shutdown_mutex_init :: c_int
  malloc_aligned_result :: "64 word"
  res_sigaltstack :: c_int
  res_sigaction :: c_int

definition start_thread_before_barrier ::
  "nat \<Rightarrow> nat \<Rightarrow> start_thread_results \<Rightarrow> thread_signals \<Rightarrow> thread_data_t
     \<Rightarrow> process_signals \<Rightarrow> linux_thread_pool_t
     \<Rightarrow> error + thread_signals \<times> process_signals \<times> linux_thread_pool_t" where
  "start_thread_before_barrier GENERIC_BLOCKER_THREAD_COUNT SEGV_STACK_SIZE res ts tdata ps pool =
     (case block_signals (res_sigfillset res) (res_sigdelset res) (res_pthread_sigmask res) ts of
        Inl e \<Rightarrow> Inl e
      | Inr ts1 \<Rightarrow>
          (case new_linux_thread_t (res_do_shutdown_mutex_init res) of
             Inl e \<Rightarrow> Inl e
           | Inr local_thread \<Rightarrow>
               (let i = nat (sint (current_thread tdata));
                    pool1 = pool\<lparr>threads := (threads pool)(i \<mapsto> local_thread)\<rparr>
                in (case install_segv_handler SEGV_STACK_SIZE (malloc_aligned_result res)
                          (res_sigaltstack res) (res_sigaction res) ts1 ps of
                      Inl e \<Rightarrow> Inl e
                    | Inr (ts2, ps1) \<Rightarrow>
                        (case initial_message tdata of
                           None \<Rightarrow> Inr (ts2, ps1, pool1)
                         | Some m \<Rightarrow>
                             if generic_blocker_pool pool1 \<noteq> None
                             then Inl (Assertion_failed
                               ''generic_blocker_pool already initialized'')
                             else Inr (ts2, ps1, pool1\<lparr>generic_blocker_pool :=
                                    Some \<lparr>helper_threads = GENERIC_BLOCKER_THREAD_COUNT,
                                          attached_queue = i\<rparr>\<rparr>))))))"

text \<open>
  The barrier lets no thread pass before every thread has run its part above. The
  threads run these parts in an order the scheduler chooses: \<open>start_threads\<close> runs them
  in the order of the list it is given, each thread with the results of its library calls
  and its signal state, on the signal state of the process and the pool, which they
  share.
\<close>

fun start_threads ::
  "nat \<Rightarrow> nat \<Rightarrow> (start_thread_results \<times> thread_signals \<times> thread_data_t) list
     \<Rightarrow> process_signals \<Rightarrow> linux_thread_pool_t
     \<Rightarrow> error + process_signals \<times> linux_thread_pool_t" where
  "start_threads count stack_size [] ps pool = Inr (ps, pool)"
| "start_threads count stack_size ((res, ts, tdata) # rest) ps pool =
     (case start_thread_before_barrier count stack_size res ts tdata ps pool of
        Inl e \<Rightarrow> Inl e
      | Inr (ts', ps', pool') \<Rightarrow> start_threads count stack_size rest ps' pool')"

text \<open>
  \<^verbatim>\<open>start_thread\<close> between the first barrier and the event loop (lines 123-129): the
  assertion that the blocker pool exists, and the initial message stored in the hub of
  \<^verbatim>\<open>local_thread\<close>, which is the entry of \<^verbatim>\<open>threads[]\<close> registered above.
\<close>

definition start_thread_after_barrier ::
  "thread_data_t \<Rightarrow> linux_thread_pool_t \<Rightarrow> error + linux_thread_pool_t" where
  "start_thread_after_barrier tdata pool =
     (if generic_blocker_pool pool = None
      then Inl (Assertion_failed
        ''Thread passed start barrier while generic_blocker_pool uninitialized'')
      else case initial_message tdata of
        None \<Rightarrow> Inr pool
      | Some m \<Rightarrow>
          (let i = nat (sint (current_thread tdata))
           in case threads pool i of
                None \<Rightarrow> Inl Null_dereference
              | Some t \<Rightarrow> Inr (pool\<lparr>threads := (threads pool)(i \<mapsto> store_message m t)\<rparr>)))"

text \<open>The results of a thread's library calls when every call succeeds.\<close>

definition calls_succeed :: "start_thread_results \<Rightarrow> bool" where
  "calls_succeed res =
     (res_sigfillset res = 0 \<and> res_sigdelset res = 0 \<and> res_pthread_sigmask res = 0 \<and>
      res_do_shutdown_mutex_init res = 0 \<and> malloc_aligned_result res \<noteq> 0 \<and>
      res_sigaltstack res = 0 \<and> res_sigaction res = 0)"

subsection \<open>The course of a run\<close>







subsection \<open>A pool of two threads\<close>

text \<open>
  The pool that the constructor returns for one worker thread, the results of a thread's
  library calls when all succeed, the signal state of a thread that has blocked no signal
  and installed no alternate stack, and the signal state of a process with the default
  action for \<^verbatim>\<open>SIGSEGV\<close>. They are the concrete inputs of the examples below.
  The main thread runs \<^verbatim>\<open>run_thread_pool\<close>, which neither calls \<^verbatim>\<open>sigaltstack\<close> nor
  changes the signal mask (lines 162-328): in the examples \<open>example_signals\<close> is also its
  signal state, before the threads start and after.
\<close>

definition example_pool :: linux_thread_pool_t where
  "example_pool =
     \<lparr>coroutine_summary = False, interrupt_message = None, generic_blocker_pool = None,
      n_threads = 2, do_set_affinity = False, do_shutdown = False, shutdown_cond = 0,
      shutdown_cond_mutex = False, threads = Map.empty\<rparr>"

definition example_results :: start_thread_results where
  "example_results =
     \<lparr>res_sigfillset = 0, res_sigdelset = 0, res_pthread_sigmask = 0,
      res_do_shutdown_mutex_init = 0, malloc_aligned_result = 0x1000, res_sigaltstack = 0,
      res_sigaction = 0\<rparr>"

definition example_signals :: thread_signals where
  "example_signals = \<lparr>blocked = (\<lambda>sig. False), altstack = None\<rparr>"

definition example_actions :: process_signals where
  "example_actions = \<lparr>segv_action = \<lparr>sa_flags = 0, sa_sigaction = Sig_dfl\<rparr>\<rparr>"

text \<open>
  The \<^verbatim>\<open>thread_data_t\<close> of thread 0 of this pool, the signal state of a thread that has
  run its start-up with these results, and that of the process then.
\<close>

definition first_thread_data :: thread_data_t where
  "first_thread_data =
     \<lparr>barrier = \<lparr>num_workers = 3\<rparr>, current_thread = 0, initial_message = Some 7\<rparr>"

definition started_signals :: thread_signals where
  "started_signals =
     \<lparr>blocked = (\<lambda>sig. sig \<noteq> SIGSEGV),
      altstack = Some \<lparr>ss_sp = 0x1000, ss_flags = 0, ss_size = 8192\<rparr>\<rparr>"

definition started_actions :: process_signals where
  "started_actions =
     \<lparr>segv_action = \<lparr>sa_flags = SA_SIGINFO OR SA_ONSTACK, sa_sigaction = Sigsegv_handler\<rparr>\<rparr>"

definition signals_after ::
  "error + thread_signals \<times> process_signals \<times> linux_thread_pool_t
     \<Rightarrow> (thread_signals \<times> process_signals) option" where
  "signals_after r =
     (case r of
        Inl e \<Rightarrow> None
      | Inr (ts, ps, pool) \<Rightarrow> Some (ts, ps))"

text \<open>The same pool once both threads run, with an interrupt message stored.\<close>

definition running_pool :: linux_thread_pool_t where
  "running_pool =
     \<lparr>coroutine_summary = False, interrupt_message = Some 7,
      generic_blocker_pool = Some \<lparr>helper_threads = 2, attached_queue = 0\<rparr>,
      n_threads = 2, do_set_affinity = False, do_shutdown = False, shutdown_cond = 0,
      shutdown_cond_mutex = False,
      threads = [0 \<mapsto> linux_thread_t_init, 1 \<mapsto> linux_thread_t_init]\<rparr>"

text \<open>The thread whose event queue the blocker pool is attached to, after a start.\<close>

definition blocker_pool_thread ::
  "error + process_signals \<times> linux_thread_pool_t \<Rightarrow> nat option" where
  "blocker_pool_thread r =
     (case r of
        Inl e \<Rightarrow> None
      | Inr (ps, pool) \<Rightarrow> map_option attached_queue (generic_blocker_pool pool))"


section \<open>The metablock manager\<close>

text \<open>
  The states of the manager and the members that the operations below use (header,
  lines 113-146): the queue of outstanding writes, the head, the scratch buffer and its
  flag, the version counter, the state and the file. The member \<^verbatim>\<open>version\<close> is called
  \<open>mgr_version\<close> here, the record above has a field of that name. The file is modelled by
  the record stored at each offset.
\<close>

datatype state_t =
    state_unstarted
  | state_reading
  | state_reading_header
  | state_writing_header
  | state_ready
  | state_writing
  | state_shut_down

record metablock_manager_t =
  outstanding_writes :: "metablock_t list"
  head :: head_t
  mb_buffer :: crc_metablock_t
  mb_buffer_in_use :: bool
  mgr_version :: c_int
  state :: state_t
  dbfile :: "nat \<Rightarrow> crc_metablock_t"

text \<open>
  Modelled from the spec: \<^verbatim>\<open>write_metablock\<close> and the completion of a write are
  defined in \<^verbatim>\<open>metablock_manager.tcc\<close>, which is not among the sources. The
  specification says of \<open>write_metablock\<close>: the state is \<open>Ready\<close> and the scratch buffer
  is not in use (if in use, the request is queued); it copies the payload into the
  scratch buffer, bumps the in-memory version counter, computes the CRC, issues one write
  at \<open>head.offset()\<close> and advances the head by one slot; there is a single write in
  flight, further requests queue in arrival order and are drained first-in first-out on
  each completion. A call in another state is an invariant violation, which is fatal.
\<close>

definition issue_write :: "layout \<Rightarrow> metablock_t \<Rightarrow> metablock_manager_t \<Rightarrow> metablock_manager_t" where
  "issue_write l mb m =
     (let v = mgr_version m + 1;
          buffer = set_crc ((mb_buffer m)\<lparr>metablock := mb, version := v\<rparr>)
      in m\<lparr>mb_buffer := buffer, mb_buffer_in_use := True, mgr_version := v,
            state := state_writing,
            dbfile := (dbfile m)(offset l (head m) := buffer),
            head := incr l (head m)\<rparr>)"






text \<open>
  Modelled from the spec: \<^verbatim>\<open>start\<close> and the recovery scan are defined in
  \<^verbatim>\<open>metablock_manager.tcc\<close>, which is not among the sources. The specification says:
  \<open>start\<close> requires the state \<open>Unstarted\<close> and initialises the head at slot 0 of extent
  0 with the wraparound flag false; the scan reads the slots in ring order; for each
  slot, if the CRC matches and the version is greater than the best version seen, it
  saves the head with \<open>push\<close>, sets the output to this payload and sets the best version;
  it advances the head, setting the flag at the end of the region and continuing at slot
  0; it terminates when, after wraparound, the head reaches the saved slot again, every
  slot having been read at most twice; if no valid record was found after a full
  traversal the output says so. Nothing has been seen when the scan begins, so the best
  version is optional. The loop gets the fuel for reading every slot twice; \<open>None\<close> says
  that it has not terminated by then. Versions are compared as \<^verbatim>\<open>int\<close>s. The best
  version set by the scan is the version counter that \<open>write_metablock\<close> bumps.
\<close>

record scan_t =
  scan_head :: head_t
  best_version :: "c_int option"
  out_mb :: "metablock_t option"

fun read_next_metablock ::
  "nat \<Rightarrow> layout \<Rightarrow> (nat \<Rightarrow> crc_metablock_t) \<Rightarrow> scan_t \<Rightarrow> scan_t option" where
  "read_next_metablock 0 l file s = None"
| "read_next_metablock (Suc fuel) l file s =
     (let r = file (offset l (scan_head s));
          s1 = (if check_crc r \<and>
                  (case best_version s of None \<Rightarrow> True | Some best \<Rightarrow> best <s version r)
                then s\<lparr>scan_head := push (scan_head s), best_version := Some (version r),
                       out_mb := Some (metablock r)\<rparr>
                else s);
          h = incr l (scan_head s1)
      in if wraparound h \<and>
            (best_version s1 = None \<or>
             (mb_slot h = saved_mb_slot h \<and> extent h = saved_extent h))
         then Some (s1\<lparr>scan_head := h\<rparr>)
         else read_next_metablock fuel l file (s1\<lparr>scan_head := h\<rparr>))"

definition start ::
  "layout \<Rightarrow> (nat \<Rightarrow> crc_metablock_t) \<Rightarrow> metablock_manager_t
     \<Rightarrow> (error + bool \<times> metablock_t option \<times> metablock_manager_t) option" where
  "start l file m =
     (if state m \<noteq> state_unstarted
      then Some (Inl (Assertion_failed ''state == state_unstarted''))
      else case read_next_metablock (2 * ring_slots l (extent_size (head m))) l file
                  \<lparr>scan_head = new_head_t (extent_size (head m)), best_version = None,
                   out_mb = None\<rparr> of
             None \<Rightarrow> None
           | Some s \<Rightarrow>
               Some (Inr (best_version s \<noteq> None, out_mb s,
                 m\<lparr>head := scan_head s,
                   mgr_version := (case best_version s of None \<Rightarrow> mgr_version m | Some v \<Rightarrow> v),
                   state := state_ready, dbfile := file\<rparr>)))"

subsection \<open>Notions for the proofs\<close>

text \<open>
  A layout in which an extent holds at least one record and fewer than \<open>2^32\<close>, the
  range of the slot counter; the head at the \<open>k\<close>-th slot of the ring with the \<open>s\<close>-th
  slot saved; and the valid slot that the scan holds after reading the first \<open>k\<close> slots.
\<close>

definition good_layout :: "layout \<Rightarrow> nat \<Rightarrow> bool" where
  "good_layout l es =
     (0 < sizeof_crc_metablock l \<and> sizeof_crc_metablock l \<le> es \<and>
      slots_per_extent l es < 2 ^ 32)"

definition cursor :: "layout \<Rightarrow> nat \<Rightarrow> nat \<Rightarrow> nat \<Rightarrow> bool \<Rightarrow> head_t" where
  "cursor l es k s w =
     \<lparr>mb_slot = of_nat (k mod slots_per_extent l es),
      extent = of_nat (k div slots_per_extent l es),
      saved_mb_slot = of_nat (s mod slots_per_extent l es),
      saved_extent = of_nat (s div slots_per_extent l es),
      extent_size = es, wraparound = w\<rparr>"








subsection \<open>A ring of four slots\<close>


definition example_layout :: layout where
  "example_layout = \<lparr>static_header_size = 8, sizeof_crc_metablock = 16\<rparr>"

definition blank_record :: crc_metablock_t where
  "blank_record = \<lparr>crc_field = 0, version = 0, metablock = [0]\<rparr>"

definition example_manager :: metablock_manager_t where
  "example_manager =
     \<lparr>outstanding_writes = [], head = new_head_t 32, mb_buffer = blank_record,
      mb_buffer_in_use = False, mgr_version = 0, state = state_unstarted,
      dbfile = (\<lambda>a. blank_record)\<rparr>"





section \<open>The checksum is the standard CRC-32 of the payload\<close>

lemma reflect_push_bit: "reflect (push_bit 1 x) = drop_bit 1 (reflect x)"
proof (rule bit_word_eqI)
  fix n assume n: "n < LENGTH('a)"
  have "bit (reflect (push_bit 1 x)) n \<longleftrightarrow>
      Suc n < LENGTH('a) \<and> bit x (LENGTH('a) - Suc (Suc n))"
    unfolding reflect_def bit_word_reverse_iff bit_push_bit_iff
    using n by (auto simp: bit_simps)
  also have "\<dots> \<longleftrightarrow> bit (drop_bit 1 (reflect x)) n"
    unfolding reflect_def bit_drop_bit_eq bit_word_reverse_iff by simp
  finally show "bit (reflect (push_bit 1 x)) n \<longleftrightarrow> bit (drop_bit 1 (reflect x)) n" .
qed

lemma reflect_xor: "reflect (a XOR b) = reflect a XOR reflect b"
  unfolding reflect_def
  by (rule bit_word_eqI) (auto simp add: bit_simps)

lemma reflect_poly: "reflect (0x04C11DB7 :: uint32_t) = 0xEDB88320"
  unfolding reflect_def by code_simp

lemma reflect_ones: "reflect (0xFFFFFFFF :: uint32_t) = 0xFFFFFFFF"
  unfolding reflect_def by code_simp

lemma reflect_bit0: "bit (reflect (x :: uint32_t)) 0 = bit x 31"
  unfolding reflect_def by (simp add: bit_simps)

lemma reflect_shift: "reflect (crc_shift 0x04C11DB7 x) = crc32_shift (reflect x)"
  unfolding crc_shift_def crc32_shift_def
  by (simp only: reflect_xor reflect_push_bit reflect_poly reflect_bit0
        if_distrib [of reflect] cong: if_cong)

lemma reflect_shift_pow:
  "reflect ((crc_shift 0x04C11DB7 ^^ n) x) = (crc32_shift ^^ n) (reflect x)"
  by (induction n) (simp_all add: reflect_shift)

lemma reflect_byte_in:
  "reflect (push_bit 24 (ucast (reflect (b :: byte))) :: uint32_t) = ucast b"
proof (rule bit_word_eqI)
  fix n assume "n < LENGTH(32)"
  show "bit (reflect (push_bit 24 (ucast (reflect b))) :: uint32_t) n
      \<longleftrightarrow> bit (ucast b :: uint32_t) n"
  proof (cases "n < 8")
    case True
    then have "7 - (7 - n) = n" by simp
    with True show ?thesis
      unfolding reflect_def bit_word_reverse_iff bit_push_bit_iff bit_ucast_iff
      by (auto simp: bit_simps)
  next
    case False
    then have "\<not> bit b n" by (auto dest: bit_imp_le_length)
    with False show ?thesis
      unfolding reflect_def bit_word_reverse_iff bit_push_bit_iff bit_ucast_iff
      by (auto simp: bit_simps)
  qed
qed

lemma process_byte_reflect:
  "reflect (process_byte 0x04C11DB7 True b rem) = crc32_byte b (reflect rem)"
  unfolding process_byte_def crc32_byte_def
  by (simp only: reflect_shift_pow reflect_xor reflect_byte_in if_True)

lemma process_bytes_reflect:
  "reflect (process_bytes 0x04C11DB7 True bs rem) = fold crc32_byte bs (reflect rem)"
  unfolding process_bytes_def
  by (induction bs arbitrary: rem) (simp_all add: process_byte_reflect)

lemma crc_optimal_is_crc32:
  "crc_optimal 0x04C11DB7 0xFFFFFFFF 0xFFFFFFFF True True bs = crc32_standard bs"
  unfolding crc_optimal_def crc32_standard_def Let_def
  by (simp only: if_True process_bytes_reflect reflect_ones)

lemma funpow_8: "(f ^^ 8) x = f (f (f (f (f (f (f (f x)))))))"
  by (simp add: eval_nat_numeral)

text \<open>The check value of CRC-32: the checksum of the ASCII digits 1 to 9.\<close>

lemma crc32_check_value:
  "crc32_standard [0x31, 0x32, 0x33, 0x34, 0x35, 0x36, 0x37, 0x38, 0x39] = 0xCBF43926"
  by (simp add: crc32_standard_def crc32_byte_def crc32_shift_def funpow_8)

text \<open>
  Claim C2. For every record, the checksum that \<open>set_crc\<close> stores and \<open>check_crc\<close>
  compares against is the standard CRC-32 (polynomial \<open>0x04C11DB7\<close>, input and output
  reflected, initial value and final XOR \<open>0xFFFFFFFF\<close>) of the payload bytes, and
  neither the version field nor the stored checksum contributes to it.
\<close>

theorem crc_is_crc32_of_payload:
  "crc r = crc32_standard (metablock r)
   \<and> crc_field (set_crc r) = crc32_standard (metablock r)
   \<and> check_crc r = (crc_field r = crc32_standard (metablock r))
   \<and> crc (r\<lparr>version := v\<rparr>) = crc r
   \<and> crc (r\<lparr>crc_field := c\<rparr>) = crc r"
  by (simp add: crc_def set_crc_def check_crc_def crc_optimal_is_crc32)

theorem crc_is_crc32_of_payload_witness:
  "crc \<lparr>crc_field = 0, version = 1,
        metablock = [0x31, 0x32, 0x33, 0x34, 0x35, 0x36, 0x37, 0x38, 0x39]\<rparr> = 0xCBF43926
   \<and> crc \<lparr>crc_field = 0, version = 2,
        metablock = [0x31, 0x32, 0x33, 0x34, 0x35, 0x36, 0x37, 0x38, 0x39]\<rparr> = 0xCBF43926"
  using crc_is_crc32_of_payload
    [of "\<lparr>crc_field = 0, version = 1,
          metablock = [0x31, 0x32, 0x33, 0x34, 0x35, 0x36, 0x37, 0x38, 0x39]\<rparr>" 2 0]
  by (simp add: crc32_check_value)

text \<open>
  Claim C9. For every record, \<open>check_crc\<close> holds right after \<open>set_crc\<close>, and a change
  of the version field alone changes neither \<open>crc\<close> nor the result of \<open>check_crc\<close>.
\<close>

theorem set_crc_then_check_crc:
  "check_crc (set_crc r)
   \<and> check_crc (r\<lparr>version := v\<rparr>) = check_crc r
   \<and> check_crc ((set_crc r)\<lparr>version := v\<rparr>)"
  by (simp add: check_crc_def set_crc_def crc_def)

theorem set_crc_then_check_crc_witness:
  "check_crc (set_crc \<lparr>crc_field = 0, version = 1, metablock = [0x31, 0x32]\<rparr>)
   \<and> check_crc ((set_crc \<lparr>crc_field = 0, version = 1, metablock = [0x31, 0x32]\<rparr>)
        \<lparr>version := 9\<rparr>)"
  using set_crc_then_check_crc
    [of "\<lparr>crc_field = 0, version = 1, metablock = [0x31, 0x32]\<rparr>" 9]
  by simp


section \<open>Signals and shutdown\<close>

lemma interrupt_handler_no_message:
  "interrupt_message pool = None \<Longrightarrow> interrupt_handler (- 1) pool = Inr pool"
  by (simp add: interrupt_handler_def set_interrupt_message_def)

lemma deliver_interrupts_no_message:
  "interrupt_message pool = None \<Longrightarrow> deliver_interrupts n (- 1) pool = Inr pool"
  by (induction n) (simp_all add: interrupt_handler_no_message)

lemma interrupt_handler_message:
  assumes "interrupt_message pool = Some m"
    and "threads pool (utility_thread pool) = Some t"
  shows "interrupt_handler (- 1) pool =
    Inr (pool\<lparr>interrupt_message := None,
          threads := (threads pool)(utility_thread pool \<mapsto> insert_external_message m t)\<rparr>)"
  using assms
  by (simp add: interrupt_handler_def set_interrupt_message_def utility_thread_def)

text \<open>
  Claim C4. For every \<open>n \<ge> 1\<close>, \<open>n\<close> deliveries of \<^verbatim>\<open>SIGINT\<close> or \<^verbatim>\<open>SIGTERM\<close> on the main
  thread while an interrupt message is stored enqueue that message exactly once, on the
  external in-box of the utility thread \<^verbatim>\<open>threads[n_threads - 1]\<close>, and leave the
  stored pointer null; the handler posts nothing when the pointer it exchanges is null.
\<close>

theorem interrupt_message_posted_once:
  assumes "0 < n"
    and "interrupt_message pool = Some m"
    and "threads pool (utility_thread pool) = Some t"
  shows "deliver_interrupts n (- 1) pool =
      Inr (pool\<lparr>interrupt_message := None,
            threads := (threads pool)(utility_thread pool \<mapsto> insert_external_message m t)\<rparr>)
    \<and> external_messages (insert_external_message m t) = external_messages t @ [m]
    \<and> utility_thread pool = nat (sint (n_threads pool - 1))
    \<and> deliver_interrupts n (- 1) (pool\<lparr>interrupt_message := None\<rparr>) =
      Inr (pool\<lparr>interrupt_message := None\<rparr>)"
proof -
  from \<open>0 < n\<close> obtain k where n: "n = Suc k"
    by (cases n) auto
  let ?pool' = "pool\<lparr>interrupt_message := None,
      threads := (threads pool)(utility_thread pool \<mapsto> insert_external_message m t)\<rparr>"
  have first: "interrupt_handler (- 1) pool = Inr ?pool'"
    using assms(2,3) by (rule interrupt_handler_message)
  have rest: "deliver_interrupts k (- 1) ?pool' = Inr ?pool'"
    by (rule deliver_interrupts_no_message) simp
  have "deliver_interrupts n (- 1) pool = Inr ?pool'"
    unfolding n by (simp add: first rest)
  moreover have "deliver_interrupts n (- 1) (pool\<lparr>interrupt_message := None\<rparr>) =
      Inr (pool\<lparr>interrupt_message := None\<rparr>)"
    by (rule deliver_interrupts_no_message) simp
  ultimately show ?thesis
    by (simp add: insert_external_message_def utility_thread_def)
qed

theorem interrupt_message_posted_once_witness:
  "deliver_interrupts 3 (- 1) running_pool =
     Inr (running_pool\<lparr>interrupt_message := None,
          threads := [0 \<mapsto> linux_thread_t_init,
                      1 \<mapsto> linux_thread_t_init\<lparr>external_messages := [7]\<rparr>]\<rparr>)"
  using interrupt_message_posted_once [of 3 running_pool 7 linux_thread_t_init]
  by (simp add: running_pool_def utility_thread_def linux_thread_t_init_def
      insert_external_message_def fun_upd_twist)

text \<open>
  Claim C10. \<^verbatim>\<open>shutdown_thread_pool\<close> sets \<^verbatim>\<open>do_shutdown\<close> and signals the condition
  variable while it holds the mutex, which it releases; whenever it returns, the
  interrupt message, the threads table with every worker's state, the blocker pool and
  the other members of the pool are what they were.
\<close>

theorem shutdown_thread_pool_frame:
  "shutdown_thread_pool 0 0 0 pool =
      Inr (pool\<lparr>do_shutdown := True, shutdown_cond := shutdown_cond pool + 1,
                shutdown_cond_mutex := False\<rparr>)
   \<and> (\<forall>res_lock res_signal res_unlock pool'.
        shutdown_thread_pool res_lock res_signal res_unlock pool = Inr pool' \<longrightarrow>
          do_shutdown pool' \<and> shutdown_cond pool' = shutdown_cond pool + 1
          \<and> interrupt_message pool' = interrupt_message pool
          \<and> threads pool' = threads pool
          \<and> generic_blocker_pool pool' = generic_blocker_pool pool
          \<and> n_threads pool' = n_threads pool
          \<and> do_set_affinity pool' = do_set_affinity pool
          \<and> coroutine_summary pool' = coroutine_summary pool)"
proof -
  have "shutdown_thread_pool 0 0 0 pool =
      Inr (pool\<lparr>do_shutdown := True, shutdown_cond := shutdown_cond pool + 1,
                shutdown_cond_mutex := False\<rparr>)"
    by (simp add: shutdown_thread_pool_def Let_def)
  moreover have "do_shutdown pool' \<and> shutdown_cond pool' = shutdown_cond pool + 1
      \<and> interrupt_message pool' = interrupt_message pool
      \<and> threads pool' = threads pool
      \<and> generic_blocker_pool pool' = generic_blocker_pool pool
      \<and> n_threads pool' = n_threads pool
      \<and> do_set_affinity pool' = do_set_affinity pool
      \<and> coroutine_summary pool' = coroutine_summary pool"
    if "shutdown_thread_pool res_lock res_signal res_unlock pool = Inr pool'"
    for res_lock res_signal res_unlock pool'
    using that by (auto simp add: shutdown_thread_pool_def Let_def split: if_splits)
  ultimately show ?thesis by blast
qed

theorem shutdown_thread_pool_frame_witness:
  "shutdown_thread_pool 0 0 0 running_pool =
     Inr (running_pool\<lparr>do_shutdown := True, shutdown_cond := 1\<rparr>)"
  using shutdown_thread_pool_frame [of running_pool]
  by (simp add: running_pool_def)


section \<open>The segmentation fault handler\<close>

lemma install_segv_handler_result:
  assumes "install_segv_handler stack_size sp r_altstack r_sigaction ts ps = Inr (ts', ps')"
  shows "runs_on_alternate_stack ps' ts'" and "sa_sigaction (segv_action ps') = Sigsegv_handler"
    and "altstack ts' = Some \<lparr>ss_sp = sp, ss_flags = 0, ss_size = stack_size\<rparr>"
    and "blocked ts' = blocked ts"
    and "sa_flags (segv_action ps') AND SA_ONSTACK \<noteq> 0"
  using assms
  by (auto simp add: install_segv_handler_def runs_on_alternate_stack_def
      SA_ONSTACK_def SA_SIGINFO_def Let_def split: if_splits)

lemma block_signals_result:
  assumes "block_signals r_fill r_del r_mask ts = Inr ts'"
  shows "\<not> blocked ts' SIGSEGV"
  using assms by (auto simp add: block_signals_def split: if_splits)

text \<open>
  A thread that reaches the first barrier has installed an alternate stack and has left
  the process with \<^verbatim>\<open>sigsegv_handler\<close> as the action for \<^verbatim>\<open>SIGSEGV\<close>, to run on such a
  stack.
\<close>

lemma start_thread_signals:
  assumes "start_thread_before_barrier count stack_size res ts tdata ps pool = Inr (ts', ps', pool')"
  shows "runs_on_alternate_stack ps' ts'" and "sa_sigaction (segv_action ps') = Sigsegv_handler"
    and "\<not> blocked ts' SIGSEGV" and "altstack ts' \<noteq> None"
    and "sa_flags (segv_action ps') AND SA_ONSTACK \<noteq> 0"
proof -
  from assms obtain ts1 where
    mask: "block_signals (res_sigfillset res) (res_sigdelset res) (res_pthread_sigmask res) ts
      = Inr ts1"
    and install: "install_segv_handler stack_size (malloc_aligned_result res)
      (res_sigaltstack res) (res_sigaction res) ts1 ps = Inr (ts', ps')"
    by (auto simp add: start_thread_before_barrier_def Let_def split: sum.splits option.splits
        if_splits)
  from install_segv_handler_result [OF install]
  show "runs_on_alternate_stack ps' ts'" and "sa_sigaction (segv_action ps') = Sigsegv_handler"
    and "altstack ts' \<noteq> None" and "sa_flags (segv_action ps') AND SA_ONSTACK \<noteq> 0"
    by simp_all
  from install_segv_handler_result(4) [OF install] block_signals_result [OF mask]
  show "\<not> blocked ts' SIGSEGV" by simp
qed

text \<open>
  Claim C8, as stated, fails: not every \<^verbatim>\<open>SIGSEGV\<close> is handled on an alternate stack.
  Once thread 0 of the pool of two threads has run its start-up, \<^verbatim>\<open>sigsegv_handler\<close> is
  the action of the process for \<^verbatim>\<open>SIGSEGV\<close>; thread 0 takes the signal on its alternate
  stack, but the main thread, which has none and does not block the signal, takes it on
  its ordinary stack.
\<close>

theorem sigsegv_on_main_thread_not_on_alternate_stack:
  "signals_after
     (start_thread_before_barrier 1 8192 example_results example_signals first_thread_data
        example_actions example_pool) = Some (started_signals, started_actions)
   \<and> sa_sigaction (segv_action started_actions) = Sigsegv_handler
   \<and> runs_on_alternate_stack started_actions started_signals
   \<and> \<not> blocked example_signals SIGSEGV
   \<and> \<not> runs_on_alternate_stack started_actions example_signals"
  by (simp add: signals_after_def start_thread_before_barrier_def block_signals_def
      install_segv_handler_def new_linux_thread_t_def example_results_def example_signals_def
      example_actions_def example_pool_def first_thread_data_def started_signals_def
      started_actions_def runs_on_alternate_stack_def SA_ONSTACK_def SA_SIGINFO_def Let_def)

text \<open>
  Claim C8, amended. A thread that \<^verbatim>\<open>start_thread\<close> has set up takes \<^verbatim>\<open>SIGSEGV\<close>
  unblocked, with \<^verbatim>\<open>sigsegv_handler\<close> as the action and on the alternate stack that the
  thread has installed, also after any other thread has run its set-up; for \<^verbatim>\<open>SIGSEGV\<close>
  the handler, on whichever thread it runs, reports a coroutine stack overflow when the
  faulting address is classified as one and the faulting address otherwise; and on no
  input does it return: every branch aborts the process.
\<close>

theorem sigsegv_handler_aborts:
  "sigsegv_handler overflow SIGSEGV addr =
      (if overflow addr then Inl (Crash ''Callstack overflow in a coroutine'' [])
       else Inl (Crash ''Segmentation fault from reading the address %p.'' [Pointer_arg addr]))
   \<and> sigsegv_handler overflow signum addr \<noteq> Inr ()
   \<and> (\<forall>ts' ps' pool'.
        start_thread_before_barrier count stack_size res ts tdata ps pool = Inr (ts', ps', pool') \<longrightarrow>
          runs_on_alternate_stack ps' ts' \<and> sa_sigaction (segv_action ps') = Sigsegv_handler
          \<and> \<not> blocked ts' SIGSEGV
          \<and> (\<forall>ts2' ps2' pool2'.
                start_thread_before_barrier count stack_size2 res2 ts2 tdata2 ps2 pool2
                  = Inr (ts2', ps2', pool2') \<longrightarrow>
                runs_on_alternate_stack ps2' ts'
                \<and> sa_sigaction (segv_action ps2') = Sigsegv_handler))
   \<and> (\<forall>ts' ps'. install_segv_handler stack_size sp r_altstack r_sigaction ts ps = Inr (ts', ps') \<longrightarrow>
         runs_on_alternate_stack ps' ts' \<and> sa_sigaction (segv_action ps') = Sigsegv_handler
         \<and> altstack ts' = Some \<lparr>ss_sp = sp, ss_flags = 0, ss_size = stack_size\<rparr>)
   \<and> (sp \<noteq> 0 \<longrightarrow> (\<exists>ts' ps'. install_segv_handler stack_size sp 0 0 ts ps = Inr (ts', ps')))"
proof -
  have classify: "sigsegv_handler overflow SIGSEGV addr =
      (if overflow addr then Inl (Crash ''Callstack overflow in a coroutine'' [])
       else Inl (Crash ''Segmentation fault from reading the address %p.'' [Pointer_arg addr]))"
    by (simp add: sigsegv_handler_def)
  have aborts: "sigsegv_handler overflow signum addr \<noteq> Inr ()"
    by (simp add: sigsegv_handler_def)
  have installs: "\<exists>ts' ps'. install_segv_handler stack_size sp 0 0 ts ps = Inr (ts', ps')"
    if "sp \<noteq> 0"
    using that by (simp add: install_segv_handler_def Let_def)
  have later: "runs_on_alternate_stack ps2' ts' \<and> sa_sigaction (segv_action ps2') = Sigsegv_handler"
    if "start_thread_before_barrier count stack_size res ts tdata ps pool = Inr (ts', ps', pool')"
      and "start_thread_before_barrier count stack_size2 res2 ts2 tdata2 ps2 pool2
        = Inr (ts2', ps2', pool2')"
    for ts' ps' pool' ts2' ps2' pool2'
    using start_thread_signals(4) [OF that(1)] start_thread_signals(2,5) [OF that(2)]
    by (simp add: runs_on_alternate_stack_def)
  have started: "runs_on_alternate_stack ps' ts' \<and> sa_sigaction (segv_action ps') = Sigsegv_handler
      \<and> \<not> blocked ts' SIGSEGV
      \<and> (\<forall>ts2' ps2' pool2'.
            start_thread_before_barrier count stack_size2 res2 ts2 tdata2 ps2 pool2
              = Inr (ts2', ps2', pool2') \<longrightarrow>
            runs_on_alternate_stack ps2' ts'
            \<and> sa_sigaction (segv_action ps2') = Sigsegv_handler)"
    if s: "start_thread_before_barrier count stack_size res ts tdata ps pool = Inr (ts', ps', pool')"
    for ts' ps' pool'
  proof (intro conjI allI impI)
    show "runs_on_alternate_stack ps' ts'" "sa_sigaction (segv_action ps') = Sigsegv_handler"
      "\<not> blocked ts' SIGSEGV"
      by (rule start_thread_signals(1-3) [OF s])+
  next
    fix ts2' ps2' pool2'
    assume "start_thread_before_barrier count stack_size2 res2 ts2 tdata2 ps2 pool2
      = Inr (ts2', ps2', pool2')"
    from later [OF s this]
    show "runs_on_alternate_stack ps2' ts'" "sa_sigaction (segv_action ps2') = Sigsegv_handler"
      by simp_all
  qed
  have installed: "runs_on_alternate_stack ps' ts' \<and> sa_sigaction (segv_action ps') = Sigsegv_handler
      \<and> altstack ts' = Some \<lparr>ss_sp = sp, ss_flags = 0, ss_size = stack_size\<rparr>"
    if i: "install_segv_handler stack_size sp r_altstack r_sigaction ts ps = Inr (ts', ps')"
    for ts' ps'
    using install_segv_handler_result(1-3) [OF i] by (intro conjI)
  show ?thesis
    apply (intro conjI)
        apply (rule classify)
       apply (rule aborts)
      apply (intro allI impI, erule started)
     apply (intro allI impI, erule installed)
    apply (intro impI, erule installs)
    done
qed

theorem sigsegv_handler_aborts_witness:
  "sigsegv_handler (\<lambda>a. a = 0x7000) 11 0x7000 = Inl (Crash ''Callstack overflow in a coroutine'' [])
   \<and> sigsegv_handler (\<lambda>a. a = 0x7000) 11 0x10 =
       Inl (Crash ''Segmentation fault from reading the address %p.'' [Pointer_arg 0x10])
   \<and> (\<exists>ts' ps'. install_segv_handler 8192 0x1000 0 0 example_signals example_actions
           = Inr (ts', ps')
         \<and> runs_on_alternate_stack ps' ts')"
proof -
  note h = sigsegv_handler_aborts [where overflow = "\<lambda>a. a = 0x7000" and signum = 11
      and stack_size = 8192 and sp = "0x1000" and ts = example_signals and ps = example_actions]
  have 1: "sigsegv_handler (\<lambda>a. a = 0x7000) 11 0x7000
      = Inl (Crash ''Callstack overflow in a coroutine'' [])"
    using h [where addr = "0x7000"] by (simp add: SIGSEGV_def)
  have 2: "sigsegv_handler (\<lambda>a. a = 0x7000) 11 0x10
      = Inl (Crash ''Segmentation fault from reading the address %p.'' [Pointer_arg 0x10])"
    using h [where addr = "0x10"] by (simp add: SIGSEGV_def)
  from h [where addr = 0 and r_altstack = 0 and r_sigaction = 0]
  have ex: "(0x1000 :: 64 word) \<noteq> 0 \<longrightarrow>
      (\<exists>ts' ps'. install_segv_handler 8192 0x1000 0 0 example_signals example_actions
         = Inr (ts', ps'))"
    and on_stack: "\<forall>ts' ps'.
      install_segv_handler 8192 0x1000 0 0 example_signals example_actions = Inr (ts', ps') \<longrightarrow>
      runs_on_alternate_stack ps' ts' \<and> sa_sigaction (segv_action ps') = Sigsegv_handler
        \<and> altstack ts' = Some \<lparr>ss_sp = 0x1000, ss_flags = 0, ss_size = 8192\<rparr>"
    by blast+
  from ex obtain ts' ps'
    where "install_segv_handler 8192 0x1000 0 0 example_signals example_actions = Inr (ts', ps')"
    by auto
  with on_stack have "\<exists>ts' ps'.
      install_segv_handler 8192 0x1000 0 0 example_signals example_actions = Inr (ts', ps')
      \<and> runs_on_alternate_stack ps' ts'"
    by blast
  with 1 2 show ?thesis by blast
qed

section \<open>The barrier\<close>

lemma sint_plus_1:
  fixes w :: c_int
  assumes "sint w < 2 ^ 31 - 1"
  shows "sint (w + 1) = sint w + 1"
proof -
  have "- (2 ^ 31) \<le> sint w" using sint_ge [of w] by simp
  with assms show ?thesis
    by (simp add: sint_word_ariths signed_take_bit_int_eq_self)
qed














section \<open>The blocker pool\<close>

lemma start_threads_append:
  "start_threads c k (xs @ ys) ps pool =
     (case start_threads c k xs ps pool of
        Inl e \<Rightarrow> Inl e
      | Inr (ps', p) \<Rightarrow> start_threads c k ys ps' p)"
  by (induction xs arbitrary: ps pool) (auto split: sum.splits)

lemma before_barrier_no_message:
  assumes "calls_succeed res" and "initial_message td = None"
  shows "\<exists>ts' ps'. start_thread_before_barrier c k res ts td ps pool =
    Inr (ts', ps',
      pool\<lparr>threads := (threads pool)(nat (sint (current_thread td)) \<mapsto> linux_thread_t_init)\<rparr>)"
  using assms
  by (simp add: start_thread_before_barrier_def block_signals_def install_segv_handler_def
      new_linux_thread_t_def calls_succeed_def Let_def)

lemma before_barrier_message:
  assumes "calls_succeed res" and "initial_message td = Some m"
    and "generic_blocker_pool pool = None"
  shows "\<exists>ts' ps'. start_thread_before_barrier c k res ts td ps pool =
    Inr (ts', ps',
      pool\<lparr>threads := (threads pool)(nat (sint (current_thread td)) \<mapsto> linux_thread_t_init),
           generic_blocker_pool :=
             Some \<lparr>helper_threads = c, attached_queue = nat (sint (current_thread td))\<rparr>\<rparr>)"
  using assms
  by (simp add: start_thread_before_barrier_def block_signals_def install_segv_handler_def
      new_linux_thread_t_def calls_succeed_def Let_def)

text \<open>Threads without the initial message register themselves and change nothing else.\<close>

lemma start_threads_no_message:
  assumes "\<forall>(res, ts, td) \<in> set starts. calls_succeed res \<and> initial_message td = None"
  shows "\<exists>ps' pool'. start_threads c k starts ps pool = Inr (ps', pool')
     \<and> generic_blocker_pool pool' = generic_blocker_pool pool
     \<and> n_threads pool' = n_threads pool
     \<and> (\<forall>i. threads pool i \<noteq> None \<longrightarrow> threads pool' i \<noteq> None)
     \<and> (\<forall>(res, ts, td) \<in> set starts. threads pool' (nat (sint (current_thread td))) \<noteq> None)"
  using assms
proof (induction starts arbitrary: ps pool)
  case Nil
  then show ?case by simp
next
  case (Cons x starts)
  obtain res ts td where x: "x = (res, ts, td)" by (cases x) auto
  from Cons.prems x have ok: "calls_succeed res" "initial_message td = None"
    and rest: "\<forall>(res, ts, td) \<in> set starts. calls_succeed res \<and> initial_message td = None"
    by auto
  let ?p1 = "pool\<lparr>threads := (threads pool)(nat (sint (current_thread td)) \<mapsto> linux_thread_t_init)\<rparr>"
  from before_barrier_no_message [OF ok] obtain ts' ps1
    where step: "start_thread_before_barrier c k res ts td ps pool = Inr (ts', ps1, ?p1)"
    by blast
  from Cons.IH [OF rest, of ps1 ?p1] obtain ps' pool' where
    p': "start_threads c k starts ps1 ?p1 = Inr (ps', pool')"
      "generic_blocker_pool pool' = generic_blocker_pool ?p1"
      "n_threads pool' = n_threads ?p1"
      "\<forall>i. threads ?p1 i \<noteq> None \<longrightarrow> threads pool' i \<noteq> None"
      "\<forall>(res, ts, td) \<in> set starts. threads pool' (nat (sint (current_thread td))) \<noteq> None"
    by blast
  have "start_threads c k (x # starts) ps pool = Inr (ps', pool')"
    by (simp add: x step p'(1))
  moreover have "threads pool' (nat (sint (current_thread td))) \<noteq> None"
    using p'(4) by simp
  moreover have "\<forall>i. threads pool i \<noteq> None \<longrightarrow> threads pool' i \<noteq> None"
    using p'(4) by simp
  ultimately show ?case
    using p'(2,3,5) x by auto
qed

lemma created_threads_cases:
  assumes "td \<in> set (created_threads pool msg)"
  shows "\<exists>i < nat (sint (n_threads pool)).
    td = new_thread_data \<lparr>num_workers = n_threads pool + 1\<rparr> msg i"
  using assms by (auto simp add: created_threads_def)

lemma first_thread_created:
  assumes "0 < sint (n_threads pool)"
  shows "new_thread_data \<lparr>num_workers = n_threads pool + 1\<rparr> msg 0
    \<in> set (created_threads pool msg)"
  using assms by (auto simp add: created_threads_def)

lemma created_threads_message:
  assumes "td \<in> set (created_threads pool msg)" and "initial_message td \<noteq> None"
  shows "td = new_thread_data \<lparr>num_workers = n_threads pool + 1\<rparr> msg 0"
proof -
  from created_threads_cases [OF assms(1)] obtain i
    where td: "td = new_thread_data \<lparr>num_workers = n_threads pool + 1\<rparr> msg i"
    by blast
  with assms(2) have "i = 0"
    by (auto simp add: new_thread_data_def split: if_splits)
  with td show ?thesis by simp
qed

text \<open>
  Claim C5, amended. When \<^verbatim>\<open>run_thread_pool\<close> is given an initial message, then in
  whatever order the threads run their start-up, the blocker pool is created before the
  first barrier by thread 0, the thread that is given the initial message, which is not
  the utility thread \<open>n_threads - 1\<close>; and after the barrier every thread finds the
  pool non-null.
\<close>

theorem blocker_pool_created_by_first_thread:
  assumes pool: "generic_blocker_pool pool = None"
    and n: "1 < sint (n_threads pool)"
    and dist: "distinct (map (snd \<circ> snd) starts)"
    and all: "set (map (snd \<circ> snd) starts) = set (created_threads pool (Some m))"
    and ok: "\<forall>(res, ts, td) \<in> set starts. calls_succeed res"
  shows "\<exists>ps' pool'. start_threads count stack_size starts ps pool = Inr (ps', pool')
    \<and> generic_blocker_pool pool' = Some \<lparr>helper_threads = count, attached_queue = 0\<rparr>
    \<and> (\<forall>td \<in> set (created_threads pool (Some m)).
          \<exists>pool''. start_thread_after_barrier td pool' = Inr pool'')
    \<and> utility_thread pool' = nat (sint (n_threads pool)) - 1
    \<and> utility_thread pool' \<noteq> 0"
proof -
  let ?f = "snd \<circ> snd :: start_thread_results \<times> thread_signals \<times> thread_data_t \<Rightarrow> thread_data_t"
  let ?td0 = "new_thread_data \<lparr>num_workers = n_threads pool + 1\<rparr> (Some m) 0"
  have td0: "initial_message ?td0 = Some m" "nat (sint (current_thread ?td0)) = 0"
    by (simp_all add: new_thread_data_def)
  from n have "?td0 \<in> set (created_threads pool (Some m))"
    by (intro first_thread_created) simp
  with all have "?td0 \<in> set (map ?f starts)" by simp
  then obtain ys zs where split: "map ?f starts = ys @ ?td0 # zs"
    by (auto dest: split_list)
  then obtain pre x post where starts: "starts = pre @ x # post"
    and pre: "map ?f pre = ys" and x: "?f x = ?td0" and post: "map ?f post = zs"
    by (auto simp add: map_eq_append_conv map_eq_Cons_conv)
  obtain res ts where x': "x = (res, ts, ?td0)"
    using x by (cases x) auto
  from dist split have notin: "?td0 \<notin> set ys" "?td0 \<notin> set zs" by auto
  have others: "initial_message td = None"
    if "td \<in> set ys \<union> set zs" for td
  proof (rule ccontr)
    assume "initial_message td \<noteq> None"
    moreover from that all split have "td \<in> set (created_threads pool (Some m))"
      by (metis Un_iff set_append list.set_intros(2))
    ultimately have "td = ?td0" by (rule created_threads_message [rotated])
    with that notin show False by auto
  qed
  have pre_ok: "\<forall>(res, ts, td) \<in> set pre. calls_succeed res \<and> initial_message td = None"
    using ok others pre unfolding starts by force
  have post_ok: "\<forall>(res, ts, td) \<in> set post. calls_succeed res \<and> initial_message td = None"
    using ok others post unfolding starts by force
  from ok have res_ok: "calls_succeed res" unfolding starts x' by simp
  from start_threads_no_message [OF pre_ok, of count stack_size ps pool] obtain ps1 p1 where
    p1: "start_threads count stack_size pre ps pool = Inr (ps1, p1)"
      "generic_blocker_pool p1 = generic_blocker_pool pool"
      "n_threads p1 = n_threads pool"
      "\<forall>(res, ts, td) \<in> set pre. threads p1 (nat (sint (current_thread td))) \<noteq> None"
    by blast
  let ?p2 = "p1\<lparr>threads := (threads p1)(nat (sint (current_thread ?td0)) \<mapsto> linux_thread_t_init),
      generic_blocker_pool :=
        Some \<lparr>helper_threads = count, attached_queue = nat (sint (current_thread ?td0))\<rparr>\<rparr>"
  from before_barrier_message [OF res_ok td0(1), of p1 count stack_size ts ps1] p1(2) pool
  obtain ts' ps2
    where step: "start_thread_before_barrier count stack_size res ts ?td0 ps1 p1 = Inr (ts', ps2, ?p2)"
    by auto
  from start_threads_no_message [OF post_ok, of count stack_size ps2 ?p2] obtain ps3 p3 where
    p3: "start_threads count stack_size post ps2 ?p2 = Inr (ps3, p3)"
      "generic_blocker_pool p3 = generic_blocker_pool ?p2"
      "n_threads p3 = n_threads ?p2"
      "\<forall>i. threads ?p2 i \<noteq> None \<longrightarrow> threads p3 i \<noteq> None"
    by blast
  have run: "start_threads count stack_size starts ps pool = Inr (ps3, p3)"
    unfolding starts x' by (simp add: start_threads_append p1(1) step p3(1))
  have gbp: "generic_blocker_pool p3 = Some \<lparr>helper_threads = count, attached_queue = 0\<rparr>"
    using p3(2) td0(2) by simp
  have registered: "threads p3 0 \<noteq> None"
    using p3(4) td0(2) by simp
  have after: "\<exists>pool''. start_thread_after_barrier td p3 = Inr pool''"
    if "td \<in> set (created_threads pool (Some m))" for td
  proof (cases "initial_message td")
    case None
    with gbp show ?thesis by (simp add: start_thread_after_barrier_def)
  next
    case (Some a)
    with that have "td = ?td0" by (intro created_threads_message) simp_all
    with gbp registered td0 show ?thesis
      by (auto simp add: start_thread_after_barrier_def Let_def)
  qed
  have nt: "n_threads p3 = n_threads pool" using p3(3) p1(3) by simp
  have "sint (n_threads pool - 1) = sint (n_threads pool) - 1"
  proof -
    have "- (2 ^ 31) \<le> sint (n_threads pool) - 1" using n by simp
    moreover have "sint (n_threads pool) - 1 < 2 ^ 31"
      using sint_lt [of "n_threads pool"] by simp
    ultimately show ?thesis
      by (simp add: sint_word_ariths signed_take_bit_int_eq_self)
  qed
  then have util: "utility_thread p3 = nat (sint (n_threads pool)) - 1"
    by (simp add: utility_thread_def nt nat_diff_distrib')
  with n have "utility_thread p3 \<noteq> 0" by simp
  with run gbp after util show ?thesis by blast
qed

lemma example_created:
  "created_threads example_pool (Some 7) =
    [\<lparr>barrier = \<lparr>num_workers = 3\<rparr>, current_thread = 0, initial_message = Some 7\<rparr>,
     \<lparr>barrier = \<lparr>num_workers = 3\<rparr>, current_thread = 1, initial_message = None\<rparr>]"
  by (simp add: created_threads_def example_pool_def new_thread_data_def upt_rec)

text \<open>
  Claim C5, as stated, fails: in the pool of two threads the blocker pool is created by
  thread 0, the thread that is given the initial message, and the utility thread is
  thread 1.
\<close>

theorem blocker_pool_not_created_by_utility_thread:
  "blocker_pool_thread
     (start_threads 1 8192
        (map (\<lambda>td. (example_results, example_signals, td)) (created_threads example_pool (Some 7)))
        example_actions example_pool) = Some 0
   \<and> utility_thread example_pool = 1"
  unfolding example_created
  by (simp add: blocker_pool_thread_def start_thread_before_barrier_def
      block_signals_def install_segv_handler_def new_linux_thread_t_def example_results_def
      example_pool_def utility_thread_def Let_def)

theorem blocker_pool_created_by_first_thread_witness:
  "\<exists>ps' pool'. start_threads 1 8192
       [(example_results, example_signals,
          \<lparr>barrier = \<lparr>num_workers = 3\<rparr>, current_thread = 1, initial_message = None\<rparr>),
        (example_results, example_signals,
          \<lparr>barrier = \<lparr>num_workers = 3\<rparr>, current_thread = 0, initial_message = Some 7\<rparr>)]
       example_actions example_pool = Inr (ps', pool')
     \<and> generic_blocker_pool pool' = Some \<lparr>helper_threads = 1, attached_queue = 0\<rparr>
     \<and> utility_thread pool' = 1"
proof -
  let ?starts = "[(example_results, example_signals,
          \<lparr>barrier = \<lparr>num_workers = 3\<rparr>, current_thread = 1, initial_message = None\<rparr>),
        (example_results, example_signals,
          \<lparr>barrier = \<lparr>num_workers = 3\<rparr>, current_thread = 0, initial_message = Some 7\<rparr>)]"
  have 1: "generic_blocker_pool example_pool = None" "1 < sint (n_threads example_pool)"
    by (simp_all add: example_pool_def)
  have 2: "distinct (map (snd \<circ> snd) ?starts)" by simp
  have 3: "set (map (snd \<circ> snd) ?starts) = set (created_threads example_pool (Some 7))"
    by (auto simp add: example_created)
  have 4: "\<forall>(res, ts, td) \<in> set ?starts. calls_succeed res"
    by (simp add: calls_succeed_def example_results_def)
  from blocker_pool_created_by_first_thread [OF 1 2 3 4, of 1 8192 example_actions]
  show ?thesis by (auto simp add: example_pool_def)
qed



section \<open>The head of the ring\<close>

lemma good_layout_slots: "good_layout l es \<Longrightarrow> 0 < slots_per_extent l es"
  by (auto simp add: good_layout_def slots_per_extent_def div_greater_zero_iff)

lemma unat_of_nat_32: "n < 2 ^ 32 \<Longrightarrow> unat (of_nat n :: uint32_t) = n"
  by (simp add: unat_of_nat)

lemma new_head_cursor: "new_head_t es = cursor l es 0 0 False"
  by (simp add: new_head_t_def cursor_def)

lemma div_lt_2:
  fixes k spe :: nat
  assumes "k < 2 * spe"
  shows "k div spe < 2"
  using assms by (simp add: less_mult_imp_div_less mult.commute)

lemma incr_cursor_next:
  assumes g: "good_layout l es" and k: "Suc k < ring_slots l es"
  shows "incr l (cursor l es k s w) = cursor l es (Suc k) s w"
proof -
  let ?spe = "slots_per_extent l es"
  have spe: "0 < ?spe" "?spe < 2 ^ 32"
    using g good_layout_slots by (auto simp add: good_layout_def)
  have m: "k mod ?spe < ?spe" using spe by simp
  then have m32: "k mod ?spe + 1 < 2 ^ 32" using spe by linarith
  have slot: "unat (of_nat (k mod ?spe) + 1 :: uint32_t) = k mod ?spe + 1"
  proof -
    have "of_nat (k mod ?spe) + 1 = (of_nat (k mod ?spe + 1) :: uint32_t)" by simp
    then show ?thesis using m32 by (simp only: unat_of_nat_32)
  qed
  from k have d: "k div ?spe < 2" "Suc k div ?spe < 2"
    by (simp_all add: ring_slots_def MB_NEXTENTS_def div_lt_2)
  show ?thesis
  proof (cases "k mod ?spe + 1 = ?spe")
    case False
    with m have lt: "k mod ?spe + 1 < ?spe" by simp
    then have "Suc k mod ?spe = k mod ?spe + 1" "Suc k div ?spe = k div ?spe"
      using spe by (simp_all add: mod_Suc div_Suc)
    with lt slot show ?thesis
      by (simp add: incr_def cursor_def Let_def)
  next
    case True
    then have sm: "Suc k mod ?spe = 0" and sd: "Suc k div ?spe = Suc (k div ?spe)"
      using spe by (simp_all add: mod_Suc div_Suc)
    with d have k0: "k div ?spe = 0" by simp
    from True slot k0 sm sd show ?thesis
      by (simp add: incr_def cursor_def Let_def MB_NEXTENTS_def)
  qed
qed

lemma last_slot:
  fixes a k :: nat
  assumes "0 < a" and "Suc k = 2 * a"
  shows "k mod a = a - 1" and "k div a = 1"
proof -
  have k: "k = (a - 1) + a" using assms by simp
  show "k mod a = a - 1"
    by (subst k, subst mod_add_self2) (use assms in simp)
  show "k div a = 1"
    by (subst k, subst div_add_self2) (use assms in simp_all)
qed

lemma incr_cursor_wrap:
  assumes g: "good_layout l es" and k: "Suc k = ring_slots l es"
  shows "incr l (cursor l es k s w) = cursor l es 0 s True"
proof -
  let ?spe = "slots_per_extent l es"
  have spe: "0 < ?spe" "?spe < 2 ^ 32"
    using g good_layout_slots by (auto simp add: good_layout_def)
  from k have k': "Suc k = 2 * ?spe"
    by (simp add: ring_slots_def MB_NEXTENTS_def)
  have m: "k mod ?spe = ?spe - 1" and d: "k div ?spe = 1"
    using last_slot [OF spe(1) k'] by simp_all
  have slot: "unat (of_nat (?spe - 1) + 1 :: uint32_t) = ?spe"
  proof -
    have "of_nat (?spe - 1) + 1 = (of_nat (?spe - 1 + 1) :: uint32_t)" by simp
    then show ?thesis using spe by (simp add: unat_of_nat_32)
  qed
  show ?thesis
    using slot by (simp add: incr_def cursor_def Let_def MB_NEXTENTS_def m d)
qed

lemma ring_slots_pos: "good_layout l es \<Longrightarrow> 0 < ring_slots l es"
  using good_layout_slots [of l es] by (simp add: ring_slots_def MB_NEXTENTS_def)

lemma incr_pow_cursor:
  assumes g: "good_layout l es"
  shows "(incr l ^^ k) (new_head_t es) =
    cursor l es (k mod ring_slots l es) 0 (ring_slots l es \<le> k)"
proof (induction k)
  case 0
  with ring_slots_pos [OF g] show ?case by (simp add: new_head_cursor [of es l])
next
  case (Suc k)
  let ?n = "ring_slots l es"
  have n: "0 < ?n" by (rule ring_slots_pos [OF g])
  then have lt: "k mod ?n < ?n" by simp
  show ?case
  proof (cases "Suc (k mod ?n) = ?n")
    case True
    then have "Suc k mod ?n = 0" by (simp add: mod_Suc)
    moreover from True have "?n \<le> Suc k"
      by (metis Suc_le_mono mod_less_eq_dividend)
    ultimately show ?thesis
      using Suc.IH incr_cursor_wrap [OF g True] by simp
  next
    case False
    with lt have next_lt: "Suc (k mod ?n) < ?n" by simp
    then have m: "Suc k mod ?n = Suc (k mod ?n)" by (simp add: mod_Suc)
    have "(?n \<le> Suc k) = (?n \<le> k)"
    proof (cases "k < ?n")
      case True
      with next_lt show ?thesis by simp
    next
      case False
      then show ?thesis by simp
    qed
    then show ?thesis
      using Suc.IH incr_cursor_next [OF g next_lt] m by simp
  qed
qed

lemma cursor_fields:
  assumes g: "good_layout l es" and k: "k < ring_slots l es"
  shows "unat (mb_slot (cursor l es k s w)) = k mod slots_per_extent l es"
    and "unat (extent (cursor l es k s w)) = k div slots_per_extent l es"
proof -
  let ?spe = "slots_per_extent l es"
  have spe: "0 < ?spe" "?spe < 2 ^ 32"
    using g good_layout_slots by (auto simp add: good_layout_def)
  have "k mod ?spe < ?spe" using spe by simp
  with spe have "k mod ?spe < 2 ^ 32" by linarith
  then show "unat (mb_slot (cursor l es k s w)) = k mod ?spe"
    by (simp add: cursor_def unat_of_nat_32)
  from k have "k div ?spe < 2"
    by (simp add: ring_slots_def MB_NEXTENTS_def div_lt_2)
  then have "k div ?spe < 2 ^ 32" by simp
  then show "unat (extent (cursor l es k s w)) = k div ?spe"
    by (simp add: cursor_def unat_of_nat_32)
qed


lemma mod_ring_slots:
  fixes k spe :: nat
  shows "(k mod (2 * spe)) div spe = (k div spe) mod 2"
    and "(k mod (2 * spe)) mod spe = k mod spe"
proof -
  have eq: "k mod (spe * 2) = spe * (k div spe mod 2) + k mod spe"
    by (rule mod_mult2_eq)
  show "(k mod (2 * spe)) div spe = (k div spe) mod 2"
  proof (cases "spe = 0")
    case True
    then show ?thesis by simp
  next
    case False
    then show ?thesis
      by (simp add: mult.commute [of 2 spe] eq)
  qed
  show "(k mod (2 * spe)) mod spe = k mod spe"
    by (simp add: mult.commute [of 2 spe] eq)
qed

text \<open>
  Claim C6. For every head the offset is \<open>static_header_size + (extent *
  MB_EXTENT_SEPERATION) * extent_size + slot * sizeof(crc_metablock_t)\<close>, with
  \<open>MB_NEXTENTS = 2\<close> and \<open>MB_EXTENT_SEPERATION = 4\<close>; and after \<open>k\<close> advances from the
  initial head the slot is \<open>k mod slots_per_extent\<close>, the extent is \<open>k div
  slots_per_extent\<close> modulo \<open>MB_NEXTENTS\<close>, and the wraparound flag is set once the head
  has passed the last slot of the last extent, that is from \<open>k = MB_NEXTENTS *
  slots_per_extent\<close> on.
\<close>

theorem head_offset_and_advance:
  assumes g: "good_layout l es"
  shows "offset l h = static_header_size l
        + (unat (extent h) * MB_EXTENT_SEPERATION) * extent_size h
        + unat (mb_slot h) * sizeof_crc_metablock l
    \<and> MB_NEXTENTS = 2 \<and> MB_EXTENT_SEPERATION = 4
    \<and> unat (mb_slot ((incr l ^^ k) (new_head_t es))) = k mod slots_per_extent l es
    \<and> unat (extent ((incr l ^^ k) (new_head_t es))) = (k div slots_per_extent l es) mod MB_NEXTENTS
    \<and> extent_size ((incr l ^^ k) (new_head_t es)) = es
    \<and> wraparound ((incr l ^^ k) (new_head_t es)) = (MB_NEXTENTS * slots_per_extent l es \<le> k)
    \<and> ring_slot l es k = static_header_size l
        + ((k div slots_per_extent l es) mod MB_NEXTENTS * MB_EXTENT_SEPERATION) * es
        + (k mod slots_per_extent l es) * sizeof_crc_metablock l"
proof -
  let ?n = "ring_slots l es" and ?spe = "slots_per_extent l es"
  let ?h = "(incr l ^^ k) (new_head_t es)"
  have n: "k mod ?n < ?n" using ring_slots_pos [OF g] by simp
  have h: "?h = cursor l es (k mod ?n) 0 (?n \<le> k)"
    by (rule incr_pow_cursor [OF g])
  have d: "(k mod ?n) div ?spe = (k div ?spe) mod MB_NEXTENTS"
    and m: "(k mod ?n) mod ?spe = k mod ?spe"
    by (simp_all add: ring_slots_def MB_NEXTENTS_def mod_ring_slots)
  have slot: "unat (mb_slot ?h) = k mod ?spe"
    unfolding h cursor_fields [OF g n] by (rule m)
  have ext: "unat (extent ?h) = (k div ?spe) mod MB_NEXTENTS"
    unfolding h cursor_fields [OF g n] by (rule d)
  have size: "extent_size ?h = es"
    unfolding h by (simp add: cursor_def)
  have wrap: "wraparound ?h = (MB_NEXTENTS * ?spe \<le> k)"
    unfolding h by (simp add: cursor_def ring_slots_def)
  have off: "ring_slot l es k = static_header_size l
      + ((k div ?spe) mod MB_NEXTENTS * MB_EXTENT_SEPERATION) * es
      + (k mod ?spe) * sizeof_crc_metablock l"
    unfolding ring_slot_def offset_def slot ext size ..
  show ?thesis
    using slot ext size wrap off
    by (simp add: offset_def MB_NEXTENTS_def MB_EXTENT_SEPERATION_def)
qed






theorem head_offset_and_advance_witness:
  "map (ring_slot example_layout 32) [0, 1, 2, 3, 4] = [8, 24, 136, 152, 8]
   \<and> map (\<lambda>k. wraparound ((incr example_layout ^^ k) (new_head_t 32))) [0, 3, 4]
       = [False, False, True]"
proof -
  have g: "good_layout example_layout 32"
    by (simp add: good_layout_def example_layout_def slots_per_extent_def)
  have spe: "slots_per_extent example_layout 32 = 2"
    by (simp add: example_layout_def slots_per_extent_def)
  have slot: "ring_slot example_layout 32 k = static_header_size example_layout
      + ((k div slots_per_extent example_layout 32) mod MB_NEXTENTS * MB_EXTENT_SEPERATION) * 32
      + (k mod slots_per_extent example_layout 32) * sizeof_crc_metablock example_layout" for k
    using head_offset_and_advance [OF g, of "new_head_t 32" k] by blast
  have wrap: "wraparound ((incr example_layout ^^ k) (new_head_t 32))
      = (MB_NEXTENTS * slots_per_extent example_layout 32 \<le> k)" for k
    using head_offset_and_advance [OF g, of "new_head_t 32" k] by blast
  have "map (ring_slot example_layout 32) [0, 1, 2, 3, 4] = [8, 24, 136, 152, 8]"
    unfolding slot spe
    by (simp add: example_layout_def MB_NEXTENTS_def MB_EXTENT_SEPERATION_def)
  moreover have "map (\<lambda>k. wraparound ((incr example_layout ^^ k) (new_head_t 32))) [0, 3, 4]
      = [False, False, True]"
    unfolding wrap spe by (simp add: MB_NEXTENTS_def)
  ultimately show ?thesis by blast
qed


section \<open>The recovery scan\<close>












section \<open>Writes\<close>

lemma cursor_extent_size [simp]: "extent_size (cursor l es k s w) = es"
  by (simp add: cursor_def)







section \<open>Recovery after writes\<close>






subsection \<open>Writes that overflow the version counter\<close>


















subsection \<open>Writes within the range of the version counter\<close>




section \<open>The version field\<close>

text \<open>
  Claim C3, as stated, fails: the version field has 32 bits, not 64, and the counter
  value \<open>2^32\<close> stored in it reads as 0.
\<close>

theorem version_is_not_64_bit:
  "size (version blank_record) \<noteq> 64
   \<and> version (blank_record\<lparr>version := 2 ^ 32\<rparr>) = version blank_record"
  by (simp add: blank_record_def word_size)

text \<open>
  Claim C3, amended. The version field of the metablock record is an \<^verbatim>\<open>int\<close>, a 32-bit
  two's complement number; a write stores in it the in-memory version counter plus one,
  which is greater by one as long as the counter is below \<open>2^31 - 1\<close>.
\<close>

theorem version_is_int_counter:
  "size (version r) = 32
   \<and> - (2 ^ 31) \<le> sint (version r) \<and> sint (version r) < 2 ^ 31
   \<and> version (dbfile (issue_write l mb m) (offset l (head m))) = mgr_version m + 1
   \<and> mgr_version (issue_write l mb m) = mgr_version m + 1
   \<and> (sint (mgr_version m) < 2 ^ 31 - 1 \<longrightarrow>
        sint (version (dbfile (issue_write l mb m) (offset l (head m))))
          = sint (mgr_version m) + 1)"
proof -
  have size: "size (version r) = 32" by (simp add: word_size)
  have lo: "- (2 ^ 31) \<le> sint (version r)" using sint_ge [of "version r"] by simp
  have hi: "sint (version r) < 2 ^ 31" using sint_lt [of "version r"] by simp
  have stored: "version (dbfile (issue_write l mb m) (offset l (head m))) = mgr_version m + 1"
    by (simp add: issue_write_def Let_def set_crc_def)
  have counter: "mgr_version (issue_write l mb m) = mgr_version m + 1"
    by (simp add: issue_write_def Let_def)
  have "sint (version (dbfile (issue_write l mb m) (offset l (head m)))) = sint (mgr_version m) + 1"
    if "sint (mgr_version m) < 2 ^ 31 - 1"
    unfolding stored using that by (rule sint_plus_1)
  with size lo hi stored counter show ?thesis by blast
qed

theorem version_is_int_counter_witness:
  "size (version blank_record) = 32
   \<and> sint (version (dbfile (issue_write example_layout [1] example_manager)
        (offset example_layout (head example_manager)))) = 1"
  using version_is_int_counter [of blank_record example_layout "[1]" example_manager]
  by (simp add: example_manager_def)


end
